theory Spec2Isabelle
  imports Main
begin

section \<open>C strings, pointers into them, and faults\<close>

text \<open>
  The program is \<^verbatim>\<open>src/curl/curl/src/tool_main.c\<close>. An argument token is a C string,
  modelled by the bytes before its terminator (a \<^typ>\<open>string\<close>). A pointer into a
  token is an offset. Writing a terminator at offset \<open>p\<close> of a token makes the token
  read as its first \<open>p\<close> bytes; the bytes after the terminator stay where they are and
  are what a pointer to offset \<open>p + 1\<close> reads.

  What C leaves undefined is a value of type \<open>fault\<close>: the model stops there.
  Allocation by \<^verbatim>\<open>malloc\<close>, \<^verbatim>\<open>strdup\<close> and \<^verbatim>\<open>asprintf\<close> inside
  \<^verbatim>\<open>scp_convert\<close> is taken to succeed (the source does not test it).
\<close>

datatype fault =
    Null_program_name
  | Write_out_of_bounds nat nat
  | Read_before_buffer nat

text \<open>\<^verbatim>\<open>strstr(s, "c")\<close> for a one-character needle: the offset of the first
  occurrence, or \<open>None\<close> for the null pointer.\<close>

fun strstr1 :: "string \<Rightarrow> char \<Rightarrow> nat option" where
  "strstr1 [] c = None"
| "strstr1 (x # xs) c = (if x = c then Some 0 else map_option Suc (strstr1 xs c))"

lemma strstr1_Some_less: "strstr1 s c = Some p \<Longrightarrow> p < length s"
  by (induction s arbitrary: p) (auto split: if_splits)

text \<open>Line 268:
  \<^verbatim>\<open>while ((position = strstr(distantFileName, "/")) != NULL) distantFileName = position + 1;\<close>\<close>

function skip_directories :: "string \<Rightarrow> string" where
  "skip_directories d =
     (case strstr1 d (CHR ''/'') of
        None \<Rightarrow> d
      | Some position \<Rightarrow> skip_directories (drop (Suc position) d))"
  by pat_completeness auto
termination
  by (relation "measure length") (auto dest: strstr1_Some_less)

declare skip_directories.simps [simp del]

section \<open>The argument translator \<^verbatim>\<open>scp_convert\<close>: the scan\<close>

text \<open>
  The locals of \<^verbatim>\<open>scp_convert\<close>. \<open>argv\<close> is the caller's vector (the scan writes
  into it), \<open>argv2\<close> holds the entries stored so far, so that the C variable
  \<^verbatim>\<open>argc2\<close> is \<open>length argv2\<close> at the top of every iteration and at every store.
  \<open>localFileName\<close> and \<open>distantFileName\<close> are pointers, \<open>None\<close> for \<^verbatim>\<open>NULL\<close>,
  given by the string they point to.
\<close>

record scan_state =
  argv :: "string list"
  argv2 :: "string list"
  localFileName :: "string option"
  distantFileName :: "string option"

text \<open>A store \<^verbatim>\<open>argv2[argc2] = v\<close> into the block of \<open>cap\<close> pointers allocated on
  line 248.\<close>

definition store_arg :: "nat \<Rightarrow> string \<Rightarrow> scan_state \<Rightarrow> fault + scan_state" where
  "store_arg cap v s =
     (if length (argv2 s) < cap then Inr (s\<lparr>argv2 := argv2 s @ [v]\<rparr>)
      else Inl (Write_out_of_bounds (length (argv2 s)) cap))"

definition and_then :: "fault + 'a \<Rightarrow> ('a \<Rightarrow> fault + 'b) \<Rightarrow> fault + 'b" where
  "and_then r f = (case r of Inl e \<Rightarrow> Inl e | Inr x \<Rightarrow> f x)"

text \<open>The file system as \<^verbatim>\<open>stat\<close> shows it: \<open>None\<close> when the call fails, otherwise
  whether the mode is a directory's.\<close>

type_synonym stat_fn = "string \<Rightarrow> bool option"

text \<open>The body of the loop of lines 253 to 300, at index \<open>i\<close>.\<close>

definition scp_step :: "stat_fn \<Rightarrow> nat \<Rightarrow> nat \<Rightarrow> scan_state \<Rightarrow> fault + scan_state" where
  "scp_step stat cap i s =
     (let a = argv s ! i; protocol = argv s ! 0 in
      if (a \<noteq> [] \<and> hd a = CHR ''-'')
         \<or> (distantFileName s \<noteq> None \<and> localFileName s \<noteq> None)
      then store_arg cap (if a = ''-q'' then ''-s'' else a) s
      else
        (case strstr1 a (CHR '':'') of
           Some position \<Rightarrow>
             and_then
               (store_arg cap
                  (protocol @ ''://'' @ take position a @ ''/'' @ drop (Suc position) a)
                  (s\<lparr>argv := (argv s)[i := take position a]\<rparr>))
               (\<lambda>s'. Inr (s'\<lparr>distantFileName :=
                               Some (skip_directories (drop (Suc position) a))\<rparr>))
         | None \<Rightarrow>
             (let s1 = s\<lparr>localFileName := Some a\<rparr> in
              case distantFileName s of
                None \<Rightarrow> and_then (store_arg cap ''-T'' s1) (store_arg cap a)
              | Some distant \<Rightarrow>
                  if a = ''.'' then store_arg cap ''-O'' s1
                  else
                    and_then (store_arg cap ''-o'' s1)
                      (\<lambda>s2.
                         if a = [] then Inl (Read_before_buffer i)
                         else if last a = CHR ''/'' then store_arg cap (a @ distant) s2
                         else
                           (case stat a of
                              Some True \<Rightarrow> store_arg cap (a @ ''/'' @ distant) s2
                            | _ \<Rightarrow> store_arg cap a s2)))))"

fun scp_loop :: "stat_fn \<Rightarrow> nat \<Rightarrow> nat list \<Rightarrow> scan_state \<Rightarrow> fault + scan_state" where
  "scp_loop stat cap [] s = Inr s"
| "scp_loop stat cap (i # is) s =
     (case scp_step stat cap i s of
        Inl e \<Rightarrow> Inl e
      | Inr s' \<Rightarrow> scp_loop stat cap is s')"

text \<open>Lines 246 to 301: the allocation of \<open>argc + 2\<close> pointers, \<^verbatim>\<open>argv2[0]\<close>, the
  loop, and the store of the terminating null pointer at \<^verbatim>\<open>argv2[argc2]\<close>.
  \<^verbatim>\<open>protocol = argv[0]\<close> is a null pointer when the vector is empty.\<close>

definition scp_scan :: "stat_fn \<Rightarrow> string list \<Rightarrow> fault + scan_state" where
  "scp_scan stat args =
     (if args = [] then Inl Null_program_name
      else
        (let argc = length args; cap = argc + 2 in
         case scp_loop stat cap [1..<argc]
                \<lparr>argv = args, argv2 = [''curl''],
                 localFileName = None, distantFileName = None\<rparr> of
           Inl e \<Rightarrow> Inl e
         | Inr s \<Rightarrow>
             if length (argv2 s) < cap then Inr s
             else Inl (Write_out_of_bounds (length (argv2 s)) cap)))"


lemma store_arg_appends:
  "store_arg cap v s = Inr s' \<Longrightarrow> argv2 s' = argv2 s @ [v]"
  by (auto simp: store_arg_def split: if_splits)

lemma scp_step_appends:
  "scp_step stat cap i s = Inr s' \<Longrightarrow> \<exists>ys. argv2 s' = argv2 s @ ys"
  by (auto simp: scp_step_def store_arg_def and_then_def Let_def
           split: if_splits option.splits sum.splits bool.splits)

lemma scp_loop_appends:
  "scp_loop stat cap is s = Inr s' \<Longrightarrow> \<exists>ys. argv2 s' = argv2 s @ ys"
proof (induction "is" arbitrary: s)
  case Nil
  then show ?case by simp
next
  case (Cons i "is")
  from Cons.prems obtain s1 where
    step: "scp_step stat cap i s = Inr s1" and rest: "scp_loop stat cap is s1 = Inr s'"
    by (auto split: sum.splits)
  from scp_step_appends [OF step] obtain ys where "argv2 s1 = argv2 s @ ys" ..
  moreover from Cons.IH [OF rest] obtain zs where "argv2 s' = argv2 s1 @ zs" ..
  ultimately show ?case by simp
qed

lemma scp_scan_program_name:
  "scp_scan stat args = Inr s \<Longrightarrow> \<exists>ys. argv2 s = ''curl'' # ys"
  by (auto simp: scp_scan_def Let_def split: if_splits sum.splits
           dest!: scp_loop_appends)

section \<open>The global configuration and the collaborators\<close>

text \<open>
  \<^verbatim>\<open>CURLcode\<close> is the library's enumeration of result codes; \<^verbatim>\<open>if(!result)\<close> tests
  it against \<^verbatim>\<open>CURLE_OK\<close>, which is 0, and \<^verbatim>\<open>CURLE_FAILED_INIT\<close> is 2.
\<close>

type_synonym CURLcode = int

definition CURLE_OK :: CURLcode where
  "CURLE_OK = 0"

definition CURLE_FAILED_INIT :: CURLcode where
  "CURLE_FAILED_INIT = 2"

datatype stream = Thread_stderr | Opened_file nat

text \<open>
  \<^verbatim>\<open>struct GlobalConfig\<close> is declared in \<^verbatim>\<open>tool_cfgable.h\<close>; the record has the
  fields that \<^verbatim>\<open>tool_main.c\<close> reads or writes. A pointer is an address, \<open>None\<close> for
  \<^verbatim>\<open>NULL\<close>. The field \<^verbatim>\<open>last\<close> is \<open>last_config\<close> here (\<open>last\<close> is a list
  function of HOL).
\<close>

record GlobalConfig =
  easy :: "nat option"
  showerror :: int
  errors :: "stream option"
  errors_fopened :: bool
  trace_dump :: "nat option"
  trace_stream :: "stream option"
  trace_fopened :: bool
  libcurl :: "nat option"
  first :: "nat option"
  last_config :: "nat option"

text \<open>\<^verbatim>\<open>memset(&global, 0, sizeof(global))\<close>, line 332.\<close>

definition zeroed :: GlobalConfig where
  "zeroed = \<lparr>easy = None, showerror = 0, errors = None, errors_fopened = False,
             trace_dump = None, trace_stream = None, trace_fopened = False,
             libcurl = None, first = None, last_config = None\<rparr>"

text \<open>
  What the code calls outside this file, as the run at hand answers: the allocation of
  the first \<^verbatim>\<open>OperationConfig\<close>, the three library calls of \<^verbatim>\<open>main_init\<close>,
  \<^verbatim>\<open>operate\<close> (which may change the configuration it is given) and \<^verbatim>\<open>stat\<close>.
\<close>

record collaborators =
  malloc_OperationConfig :: "nat option"
  curl_global_init :: CURLcode
  get_libcurl_info :: CURLcode
  curl_easy_init :: "nat option"
  operate :: "GlobalConfig \<Rightarrow> string list \<Rightarrow> CURLcode \<times> GlobalConfig"
  stat :: stat_fn

text \<open>The calls a run makes, in order, each with its outcome.\<close>

datatype event =
    Malloc_OperationConfig "nat option"
  | Curl_global_init CURLcode
  | Get_libcurl_info CURLcode
  | Curl_easy_init "nat option"
  | Config_init nat nat
  | Free_first nat
  | Helpf string
  | Fprintf_stderr string
  | Operate "string list" CURLcode
  | Main_free
  | Curl_easy_cleanup "nat option"
  | Curl_global_cleanup
  | Convert_cleanup
  | Metalink_cleanup
  | Safefree "nat option"
  | Fclose stream
  | Config_free "nat option"
  | Free_argv2 "string list"

section \<open>The lifecycle: \<^verbatim>\<open>main_init\<close>, \<^verbatim>\<open>free_config_fields\<close>, \<^verbatim>\<open>main_free\<close>\<close>

text \<open>
  Lines 130 to 183. The result is the code returned, the configuration as the call
  leaves it, and the calls made. \<open>Config_init p h\<close> stands for lines 157 to 159: the
  node at \<open>p\<close> is initialised and linked to the handle \<open>h\<close> and to the configuration.
  A failure branch leaves \<^verbatim>\<open>config->first\<close> and \<^verbatim>\<open>config->last\<close> pointing to the
  freed node, as the source does.
\<close>

definition main_init :: "collaborators \<Rightarrow> GlobalConfig \<Rightarrow> CURLcode \<times> GlobalConfig \<times> event list" where
  "main_init env config =
     (let c0 = config\<lparr>showerror := - 1, errors := Some Thread_stderr\<rparr>;
          c1 = c0\<lparr>first := malloc_OperationConfig env,
                  last_config := malloc_OperationConfig env\<rparr>
      in case malloc_OperationConfig env of
           None \<Rightarrow>
             (CURLE_FAILED_INIT, c1,
              [Malloc_OperationConfig None, Helpf (''error initializing curl'' @ [CHR 0x0A])])
         | Some p \<Rightarrow>
             if curl_global_init env = 0 then
               if get_libcurl_info env = 0 then
                 (case curl_easy_init env of
                    Some h \<Rightarrow>
                      (CURLE_OK, c1\<lparr>easy := Some h\<rparr>,
                       [Malloc_OperationConfig (Some p), Curl_global_init 0,
                        Get_libcurl_info 0, Curl_easy_init (Some h), Config_init p h])
                  | None \<Rightarrow>
                      (CURLE_FAILED_INIT, c1\<lparr>easy := None\<rparr>,
                       [Malloc_OperationConfig (Some p), Curl_global_init 0,
                        Get_libcurl_info 0, Curl_easy_init None,
                        Helpf (''error initializing curl easy handle'' @ [CHR 0x0A]), Free_first p]))
               else
                 (get_libcurl_info env, c1,
                  [Malloc_OperationConfig (Some p), Curl_global_init 0,
                   Get_libcurl_info (get_libcurl_info env),
                   Helpf (''error retrieving curl library information'' @ [CHR 0x0A]), Free_first p])
             else
               (curl_global_init env, c1,
                [Malloc_OperationConfig (Some p),
                 Curl_global_init (curl_global_init env),
                 Helpf (''error initializing curl library'' @ [CHR 0x0A]), Free_first p]))"

text \<open>Lines 185 to 198. \<^verbatim>\<open>Curl_safefree(p)\<close> frees \<open>p\<close> and sets it to \<^verbatim>\<open>NULL\<close>.\<close>

definition free_config_fields :: "GlobalConfig \<Rightarrow> GlobalConfig \<times> event list" where
  "free_config_fields config =
     (config\<lparr>trace_dump := None, errors := None, trace_stream := None, libcurl := None\<rparr>,
      [Safefree (trace_dump config)]
      @ (case errors config of
           Some f \<Rightarrow> if errors_fopened config then [Fclose f] else []
         | None \<Rightarrow> [])
      @ (case trace_stream config of
           Some f \<Rightarrow> if trace_fopened config then [Fclose f] else []
         | None \<Rightarrow> [])
      @ [Safefree (libcurl config)])"

text \<open>Lines 204 to 228 (the \<^verbatim>\<open>USE_NSS\<close> block is not compiled in).\<close>

definition main_free :: "GlobalConfig \<Rightarrow> GlobalConfig \<times> event list" where
  "main_free config =
     (let c1 = config\<lparr>easy := None\<rparr>;
          (c2, closing) = free_config_fields c1
      in (c2\<lparr>first := None, last_config := None\<rparr>,
          [Curl_easy_cleanup (easy config), Curl_global_cleanup, Convert_cleanup,
           Metalink_cleanup]
          @ closing @ [Config_free (last_config c2)]))"

section \<open>The entry points \<^verbatim>\<open>scp_convert\<close> and \<^verbatim>\<open>curl_main\<close>\<close>

record run =
  exit_code :: int
  events :: "event list"

definition usage :: "string \<Rightarrow> event list" where
  "usage protocol =
     [Fprintf_stderr (''Usage:'' @ [CHR 0x09] @ protocol
                      @ '' [-q] [user@]host:distantFile localFile'' @ [CHR 0x0A]),
      Fprintf_stderr ([CHR 0x09] @ protocol
                      @ '' [-q] localFile [user@]host:distantFile '' @ [CHR 0x0A])]"

text \<open>
  Lines 245 to 316 and 321 to 369. \<^verbatim>\<open>scp_convert\<close> hands the list it built to
  \<^verbatim>\<open>curl_main\<close>, which calls \<^verbatim>\<open>scp_convert\<close> when \<^verbatim>\<open>argv[0]\<close> is \<^verbatim>\<open>scp\<close> or
  \<^verbatim>\<open>sftp\<close>; the recursion ends because the list built starts with \<^verbatim>\<open>curl\<close>.
  \<open>Main_free\<close> marks the call of \<^verbatim>\<open>main_free\<close> on line 356. The descriptor check and
  the memory tracking of lines 334 to 341 are left out.
\<close>

function scp_convert :: "collaborators \<Rightarrow> string list \<Rightarrow> fault + run"
  and curl_main :: "collaborators \<Rightarrow> string list \<Rightarrow> fault + run" where
  "scp_convert env args =
     (case scp_scan (stat env) args of
        Inl e \<Rightarrow> Inl e
      | Inr s \<Rightarrow>
          if \<not> (localFileName s \<noteq> None \<and> distantFileName s \<noteq> None) then
            Inr \<lparr>exit_code = - 1,
                 events = usage (argv s ! 0) @ [Free_argv2 (argv2 s)]\<rparr>
          else
            (case curl_main env (argv2 s) of
               Inl e \<Rightarrow> Inl e
             | Inr r \<Rightarrow>
                 Inr \<lparr>exit_code = exit_code r,
                      events = events r @ [Free_argv2 (argv2 s)]\<rparr>))"
| "curl_main env args =
     (case args of
        [] \<Rightarrow> Inl Null_program_name
      | a0 # _ \<Rightarrow>
          if a0 = ''scp'' \<or> a0 = ''sftp'' then scp_convert env args
          else
            (let (result, global, starting) = main_init env zeroed in
             if result = CURLE_OK then
               (let (result', global') = operate env global args;
                    (global'', ending) = main_free global'
                in Inr \<lparr>exit_code = result',
                        events = starting @ [Operate args result', Main_free] @ ending\<rparr>)
             else Inr \<lparr>exit_code = result, events = starting\<rparr>))"
  by pat_completeness auto
termination
proof (relation "measure (\<lambda>x. case x of
                    Inl (env, args) \<Rightarrow> 1
                  | Inr (env, args) \<Rightarrow>
                      (case args of
                         [] \<Rightarrow> 0
                       | a0 # _ \<Rightarrow> if a0 = ''scp'' \<or> a0 = ''sftp'' then 2 else 0))")
  show "wf (measure (\<lambda>x. case x of
                    Inl (env, args) \<Rightarrow> 1
                  | Inr (env, args) \<Rightarrow>
                      (case args of
                         [] \<Rightarrow> 0
                       | a0 # _ \<Rightarrow> if a0 = ''scp'' \<or> a0 = ''sftp'' then 2 else (0::nat))))"
    by simp
qed (auto dest!: scp_scan_program_name)

declare scp_convert.simps [simp del] curl_main.simps [simp del]


text \<open>What line 265 does to a token \<open>a\<close> taken as the remote file: the terminator
  written over its first \<open>:\<close> leaves \<open>a'\<close> to be read.\<close>

definition cut_at_colon :: "string \<Rightarrow> string \<Rightarrow> bool" where
  "cut_at_colon a a' \<longleftrightarrow>
     CHR '':'' \<in> set a \<and> (a = [] \<or> hd a \<noteq> CHR ''-'')
     \<and> a' = takeWhile (\<lambda>c. c \<noteq> CHR '':'') a"

text \<open>
  Which tokens the scan takes as the remote file, read off the vector it is given. A
  token is scanned as a file name when it does not start with \<open>-\<close> and the scan has
  not yet found both a remote and a local name. \<open>remote_seen args j\<close> and
  \<open>local_seen args j\<close> say that a token before index \<open>j\<close> (the program name apart)
  does not start with \<open>-\<close> and has, or has not, a \<open>:\<close>. \<open>token_after_scan args j\<close>
  is what the caller reads at index \<open>j\<close> afterwards, and \<open>scanned_upto args j s\<close> is
  the state of the loop on entry to iteration \<open>j\<close>.
\<close>

definition starts_with_dash :: "string \<Rightarrow> bool" where
  "starts_with_dash a \<longleftrightarrow> a \<noteq> [] \<and> hd a = CHR ''-''"

definition remote_seen :: "string list \<Rightarrow> nat \<Rightarrow> bool" where
  "remote_seen args j \<longleftrightarrow>
     (\<exists>k\<in>{1..<j}. \<not> starts_with_dash (args ! k) \<and> CHR '':'' \<in> set (args ! k))"

definition local_seen :: "string list \<Rightarrow> nat \<Rightarrow> bool" where
  "local_seen args j \<longleftrightarrow>
     (\<exists>k\<in>{1..<j}. \<not> starts_with_dash (args ! k) \<and> CHR '':'' \<notin> set (args ! k))"

definition taken_as_remote :: "string list \<Rightarrow> nat \<Rightarrow> bool" where
  "taken_as_remote args j \<longleftrightarrow>
     \<not> starts_with_dash (args ! j) \<and> CHR '':'' \<in> set (args ! j)
     \<and> \<not> (remote_seen args j \<and> local_seen args j)"

definition token_after_scan :: "string list \<Rightarrow> nat \<Rightarrow> string" where
  "token_after_scan args j =
     (if taken_as_remote args j then takeWhile (\<lambda>c. c \<noteq> CHR '':'') (args ! j)
      else args ! j)"

definition scanned_upto :: "string list \<Rightarrow> nat \<Rightarrow> scan_state \<Rightarrow> bool" where
  "scanned_upto args j s \<longleftrightarrow>
     length (argv s) = length args
     \<and> (\<forall>k<length args.
           argv s ! k = (if 1 \<le> k \<and> k < j then token_after_scan args k else args ! k))
     \<and> (distantFileName s \<noteq> None \<longleftrightarrow> remote_seen args j)
     \<and> (localFileName s \<noteq> None \<longleftrightarrow> local_seen args j)"

section \<open>Resources held and released\<close>

text \<open>
  The three things \<^verbatim>\<open>main_init\<close> acquires: the \<^verbatim>\<open>OperationConfig\<close> node, the
  library's global state and the easy handle. A call acquires one when it succeeds,
  and the calls below give one back (\<^verbatim>\<open>curl_easy_cleanup\<close> and \<^verbatim>\<open>config_free\<close> do
  nothing on a null pointer).
\<close>

datatype resource = Node | Engine | Handle

fun acquires :: "event \<Rightarrow> resource option" where
  "acquires (Malloc_OperationConfig (Some p)) = Some Node"
| "acquires (Curl_global_init c) = (if c = 0 then Some Engine else None)"
| "acquires (Curl_easy_init (Some h)) = Some Handle"
| "acquires _ = None"

fun releases :: "event \<Rightarrow> resource option" where
  "releases (Free_first p) = Some Node"
| "releases Curl_global_cleanup = Some Engine"
| "releases (Curl_easy_cleanup (Some h)) = Some Handle"
| "releases (Config_free (Some p)) = Some Node"
| "releases _ = None"

definition acquired :: "event list \<Rightarrow> resource list" where
  "acquired tr = List.map_filter acquires tr"

definition released :: "event list \<Rightarrow> resource list" where
  "released tr = List.map_filter releases tr"

text \<open>The resources held after a sequence of calls, starting from \<open>held\<close>; \<open>None\<close>
  when a call releases what is not held (never acquired, or released before).\<close>

fun ledger :: "event list \<Rightarrow> resource list \<Rightarrow> resource list option" where
  "ledger [] held = Some held"
| "ledger (e # es) held =
     (case releases e of
        Some r \<Rightarrow> if r \<in> set held then ledger es (remove1 r held) else None
      | None \<Rightarrow>
          (case acquires e of
             Some r \<Rightarrow> ledger es (r # held)
           | None \<Rightarrow> ledger es held))"

text \<open>The fields of the configuration that refer to a resource or say who owns it
  (all but \<open>showerror\<close>).\<close>

definition resource_fields ::
  "GlobalConfig \<Rightarrow> nat option \<times> stream option \<times> bool \<times> nat option \<times> stream option
                  \<times> bool \<times> nat option \<times> nat option \<times> nat option" where
  "resource_fields c =
     (easy c, errors c, errors_fopened c, trace_dump c, trace_stream c,
      trace_fopened c, libcurl c, first c, last_config c)"

section \<open>Sample collaborators\<close>

definition no_files :: stat_fn where
  "no_files path = None"

definition operate_fails :: "GlobalConfig \<Rightarrow> string list \<Rightarrow> CURLcode \<times> GlobalConfig" where
  "operate_fails config args = (7, config)"

definition all_succeed :: collaborators where
  "all_succeed =
     \<lparr>malloc_OperationConfig = Some 1, curl_global_init = 0, get_libcurl_info = 0,
      curl_easy_init = Some 2, operate = operate_fails, stat = no_files\<rparr>"

definition info_fails :: collaborators where
  "info_fails = all_succeed\<lparr>get_libcurl_info := 2\<rparr>"

section \<open>Facts about the string functions\<close>

lemma strstr1_None_iff: "strstr1 s c = None \<longleftrightarrow> c \<notin> set s"
  by (induction s) auto

lemma strstr1_Some_first:
  "strstr1 s c = Some p \<Longrightarrow> c \<in> set s \<and> p = length (takeWhile (\<lambda>x. x \<noteq> c) s)"
  by (induction s arbitrary: p) (auto split: if_splits)

lemma strstr1_first:
  "c \<in> set s \<Longrightarrow> strstr1 s c = Some (length (takeWhile (\<lambda>x. x \<noteq> c) s))"
  by (induction s) auto

lemma take_first: "take (length (takeWhile P s)) s = takeWhile P s"
  by (induction s) auto

lemma drop_first: "drop (Suc (length (takeWhile P s))) s = tl (dropWhile P s)"
  by (induction s) auto

text \<open>The loop of line 268 leaves the pointer after the last \<open>/\<close>.\<close>

lemma skip_directories_last_component:
  "skip_directories d = rev (takeWhile (\<lambda>x. x \<noteq> CHR ''/'') (rev d))"
proof (induction d rule: skip_directories.induct)
  case (1 d)
  show ?case
  proof (cases "strstr1 d (CHR ''/'')")
    case None
    then have "CHR ''/'' \<notin> set d" by (simp add: strstr1_None_iff)
    then have whole: "takeWhile (\<lambda>x. x \<noteq> CHR ''/'') (rev d) = rev d"
      by auto
    show ?thesis
      by (simp only: skip_directories.simps [of d] None option.case whole rev_rev_ident)
  next
    case (Some p)
    from strstr1_Some_first [OF Some]
    have mem: "CHR ''/'' \<in> set d" and p: "p = length (takeWhile (\<lambda>x. x \<noteq> CHR ''/'') d)"
      by simp_all
    let ?P = "\<lambda>x. x \<noteq> CHR ''/''"
    obtain rest where dw: "dropWhile ?P d = CHR ''/'' # rest"
    proof (cases "dropWhile ?P d")
      case Nil
      with mem show ?thesis by auto
    next
      case (Cons y ys)
      with hd_dropWhile [of ?P d] have "y = CHR ''/''" by simp
      with Cons that show ?thesis by simp
    qed
    have dr: "drop (Suc p) d = rest"
      by (simp only: p drop_first dw list.sel)
    have "rev (takeWhile ?P d @ dropWhile ?P d) = rev d"
      by (simp only: takeWhile_dropWhile_id)
    then have split: "rev d = rev rest @ CHR ''/'' # rev (takeWhile ?P d)"
      unfolding dw by simp
    have tw: "takeWhile ?P (rev d) = takeWhile ?P (rev rest)"
    proof (cases "CHR ''/'' \<in> set rest")
      case True
      then show ?thesis
        by (simp only: split) auto
    next
      case False
      then have none: "\<And>x. x \<in> set (rev rest) \<Longrightarrow> ?P x" by auto
      have "takeWhile ?P (rev rest @ CHR ''/'' # rev (takeWhile ?P d))
            = rev rest @ takeWhile ?P (CHR ''/'' # rev (takeWhile ?P d))"
        by (rule takeWhile_append2) (rule none)
      moreover have "takeWhile ?P (rev rest) = rev rest"
        by (rule takeWhile_eq_all_conv [THEN iffD2]) (use none in blast)
      ultimately show ?thesis
        by (simp only: split) simp
    qed
    from 1 [OF Some] have "skip_directories rest = rev (takeWhile ?P (rev rest))"
      by (simp only: dr)
    then show ?thesis
      by (simp only: skip_directories.simps [of d] Some option.case dr tw)
  qed
qed

section \<open>The translator: the remote token\<close>

text \<open>
  A token that does not start with \<open>-\<close> and contains \<open>:\<close>, scanned while no remote
  file name is known and while the block has room for one more entry, is split at its
  first \<open>:\<close> into \<open>userHost\<close> and \<open>remotePath\<close>; the step stores the URL
  \<open>protocol://userHost/remotePath\<close>, built from the whole of \<open>remotePath\<close>, and leaves
  \<open>distantFileName\<close> at what follows the last \<open>/\<close> of \<open>remotePath\<close>. (The step also
  cuts the caller's token down to \<open>userHost\<close>.)
\<close>

lemma remote_token_step:
  assumes tok: "a = argv s ! i"
    and nonflag: "a = [] \<or> hd a \<noteq> CHR ''-''"
    and sep: "CHR '':'' \<in> set a"
    and unknown: "distantFileName s = None"
    and room: "length (argv2 s) < cap"
    and host: "userHost = takeWhile (\<lambda>c. c \<noteq> CHR '':'') a"
    and path: "remotePath = tl (dropWhile (\<lambda>c. c \<noteq> CHR '':'') a)"
  shows "scp_step st cap i s =
           Inr (s\<lparr>argv := (argv s)[i := userHost],
                  argv2 := argv2 s @ [argv s ! 0 @ ''://'' @ userHost @ ''/'' @ remotePath],
                  distantFileName :=
                    Some (rev (takeWhile (\<lambda>c. c \<noteq> CHR ''/'') (rev remotePath)))\<rparr>)"
proof -
  from sep have pos: "strstr1 a (CHR '':'') = Some (length userHost)"
    by (simp add: strstr1_first host)
  have "take (length userHost) a = userHost"
    by (simp add: host take_first)
  moreover have "drop (Suc (length userHost)) a = remotePath"
    by (simp add: host path drop_first)
  ultimately show ?thesis
    using nonflag unknown room tok [symmetric]
    by (auto simp: scp_step_def Let_def pos store_arg_def and_then_def
          skip_directories_last_component)
qed

lemma remote_token_step_example:
  "scp_step no_files 5 1
     \<lparr>argv = [''scp'', ''user@host:/a/b/c.txt'', ''out''], argv2 = [''curl''],
      localFileName = None, distantFileName = None\<rparr>
   = Inr \<lparr>argv = [''scp'', ''user@host'', ''out''],
          argv2 = [''curl'', ''scp://user@host//a/b/c.txt''],
          localFileName = None, distantFileName = Some ''c.txt''\<rparr>"
  using remote_token_step [of "''user@host:/a/b/c.txt''"
      "\<lparr>argv = [''scp'', ''user@host:/a/b/c.txt'', ''out''], argv2 = [''curl''],
        localFileName = None, distantFileName = None\<rparr>" 1 5
      "''user@host''" "''/a/b/c.txt''" no_files]
  by simp

text \<open>
  Claim C8. The claim is for every such token, and the code does not meet it when the
  block is full. For \<^verbatim>\<open>scp a b c host:f\<close> (\<open>argc = 5\<close>, a block of 7 pointers) the
  three local files leave \<open>curl -T a -T b -T c\<close> in the block; the remote token
  \<open>host:f\<close> is then scanned with no remote name known, and line 266 stores its URL at
  index 7, beyond the block: no URL token is emitted and no basename recorded.
\<close>

theorem remote_token_stored_beyond_block:
  "scp_loop st 7 [1..<4]
     \<lparr>argv = [''scp'', ''a'', ''b'', ''c'', ''host:f''], argv2 = [''curl''],
      localFileName = None, distantFileName = None\<rparr>
   = Inr \<lparr>argv = [''scp'', ''a'', ''b'', ''c'', ''host:f''],
          argv2 = [''curl'', ''-T'', ''a'', ''-T'', ''b'', ''-T'', ''c''],
          localFileName = Some ''c'', distantFileName = None\<rparr>
   \<and> scp_step st 7 4
       \<lparr>argv = [''scp'', ''a'', ''b'', ''c'', ''host:f''],
        argv2 = [''curl'', ''-T'', ''a'', ''-T'', ''b'', ''-T'', ''c''],
        localFileName = Some ''c'', distantFileName = None\<rparr>
     = Inl (Write_out_of_bounds 7 7)
   \<and> scp_scan st [''scp'', ''a'', ''b'', ''c'', ''host:f''] = Inl (Write_out_of_bounds 7 7)"
  by code_simp

section \<open>The translator: upload, download, flags\<close>

text \<open>
  Claim C2. For \<^verbatim>\<open>scp localfile.txt user@host:/remote/path/\<close> the list built holds
  \<open>-T\<close> and \<open>localfile.txt\<close>, and the URL is the remote directory as given,
  \<open>scp://user@host//remote/path/\<close>: the name of the local file is not appended to it
  (the comment on line 236 of the source shows it appended).
\<close>

theorem upload_url_lacks_file_name:
  "scp_scan st [''scp'', ''localfile.txt'', ''user@host:/remote/path/''] =
     Inr \<lparr>argv = [''scp'', ''localfile.txt'', ''user@host''],
          argv2 = [''curl'', ''-T'', ''localfile.txt'', ''scp://user@host//remote/path/''],
          localFileName = Some ''localfile.txt'', distantFileName = Some ''''\<rparr>"
  by code_simp

lemma flag_step:
  assumes "a = argv s ! i" and "a \<noteq> []" and "hd a = CHR ''-''" and "length (argv2 s) < cap"
  shows "scp_step st cap i s = Inr (s\<lparr>argv2 := argv2 s @ [if a = ''-q'' then ''-s'' else a]\<rparr>)"
  using assms by (simp add: scp_step_def Let_def store_arg_def)

lemma quiet_download_scan:
  "scp_scan st [''scp'', ''-q'', ''user@host:/a/b/c.txt'', ''out/''] =
     Inr \<lparr>argv = [''scp'', ''-q'', ''user@host'', ''out/''],
          argv2 = [''curl'', ''-s'', ''scp://user@host//a/b/c.txt'', ''-o'', ''out/c.txt''],
          localFileName = Some ''out/'', distantFileName = Some ''c.txt''\<rparr>"
  by code_simp

text \<open>
  Claim C9. For \<^verbatim>\<open>scp -q user@host:/a/b/c.txt out/\<close> the list built is
  \<open>curl -s scp://user@host//a/b/c.txt -o out/c.txt\<close>: \<open>-q\<close> has become \<open>-s\<close>, and
  the local path, ending in \<open>/\<close>, is followed by the remote file's name whatever
  \<^verbatim>\<open>stat\<close> answers. And every token starting with \<open>-\<close> is stored as it is, except
  \<open>-q\<close>, stored as \<open>-s\<close> (while the block has room).
\<close>

theorem quiet_flag_and_directory_download:
  "scp_scan st [''scp'', ''-q'', ''user@host:/a/b/c.txt'', ''out/''] =
     Inr \<lparr>argv = [''scp'', ''-q'', ''user@host'', ''out/''],
          argv2 = [''curl'', ''-s'', ''scp://user@host//a/b/c.txt'', ''-o'', ''out/c.txt''],
          localFileName = Some ''out/'', distantFileName = Some ''c.txt''\<rparr>
   \<and> (a = argv s ! i \<and> a \<noteq> [] \<and> hd a = CHR ''-'' \<and> length (argv2 s) < cap \<longrightarrow>
        scp_step st cap i s
          = Inr (s\<lparr>argv2 := argv2 s @ [if a = ''-q'' then ''-s'' else a]\<rparr>))"
  using quiet_download_scan flag_step by blast

theorem quiet_flag_and_directory_download_witness:
  "scp_scan no_files [''scp'', ''-q'', ''user@host:/a/b/c.txt'', ''out/''] =
     Inr \<lparr>argv = [''scp'', ''-q'', ''user@host'', ''out/''],
          argv2 = [''curl'', ''-s'', ''scp://user@host//a/b/c.txt'', ''-o'', ''out/c.txt''],
          localFileName = Some ''out/'', distantFileName = Some ''c.txt''\<rparr>
   \<and> scp_step no_files 4 1
        \<lparr>argv = [''scp'', ''-v''], argv2 = [''curl''],
         localFileName = None, distantFileName = None\<rparr>
       = Inr \<lparr>argv = [''scp'', ''-v''], argv2 = [''curl'', ''-v''],
              localFileName = None, distantFileName = None\<rparr>"
  using quiet_flag_and_directory_download [of no_files "''-v''"
      "\<lparr>argv = [''scp'', ''-v''], argv2 = [''curl''],
        localFileName = None, distantFileName = None\<rparr>" 1 4]
  by simp

text \<open>
  Claim C10. With two local files before the remote one,
  \<^verbatim>\<open>scp a b host:dir/\<close> (\<open>argc = 4\<close>, a block of 6 pointers), the entries
  \<open>curl -T a -T b scp://host/dir/\<close> fill the block and the terminating null pointer is
  stored at index 6, beyond it.
\<close>

theorem two_local_files_overflow_argv2:
  "scp_scan st [''scp'', ''a'', ''b'', ''host:dir/''] = Inl (Write_out_of_bounds 6 6)"
  by code_simp

section \<open>The translator writes into the caller's tokens\<close>

lemma scp_step_argv:
  assumes "scp_step st cap i s = Inr s'"
  shows "argv s' = argv s
         \<or> (cut_at_colon (argv s ! i) (takeWhile (\<lambda>c. c \<noteq> CHR '':'') (argv s ! i))
            \<and> argv s' = (argv s)[i := takeWhile (\<lambda>c. c \<noteq> CHR '':'') (argv s ! i)])"
proof (cases "strstr1 (argv s ! i) (CHR '':'')")
  case None
  with assms show ?thesis
    by (auto simp: scp_step_def Let_def store_arg_def and_then_def
             split: if_splits option.splits sum.splits bool.splits)
next
  case (Some p)
  from strstr1_Some_first [OF Some]
  have "CHR '':'' \<in> set (argv s ! i)"
    and "take p (argv s ! i) = takeWhile (\<lambda>c. c \<noteq> CHR '':'') (argv s ! i)"
    by (simp_all add: take_first)
  with assms Some show ?thesis
    by (auto simp: scp_step_def Let_def store_arg_def and_then_def cut_at_colon_def
             split: if_splits)
qed

lemma scp_loop_argv:
  assumes "distinct is" and "scp_loop st cap is s = Inr s'"
  shows "length (argv s') = length (argv s)
         \<and> (\<forall>j<length (argv s).
               (j \<notin> set is \<longrightarrow> argv s' ! j = argv s ! j)
               \<and> (argv s' ! j = argv s ! j \<or> cut_at_colon (argv s ! j) (argv s' ! j)))"
  using assms
proof (induction "is" arbitrary: s)
  case Nil
  then show ?case by simp
next
  case (Cons i "is")
  from Cons.prems obtain s1 where
    step: "scp_step st cap i s = Inr s1" and rest: "scp_loop st cap is s1 = Inr s'"
    by (auto split: sum.splits)
  from Cons.prems have d: "distinct is" and fresh: "i \<notin> set is" by simp_all
  note ih = Cons.IH [OF d rest]
  from scp_step_argv [OF step]
  have len1: "length (argv s1) = length (argv s)" by auto
  have one: "\<And>j. j < length (argv s) \<Longrightarrow> j \<noteq> i \<Longrightarrow> argv s1 ! j = argv s ! j"
    using scp_step_argv [OF step] by auto
  have at_i: "i < length (argv s) \<Longrightarrow>
      argv s1 ! i = argv s ! i \<or> cut_at_colon (argv s ! i) (argv s1 ! i)"
    using scp_step_argv [OF step] by auto
  show ?case
  proof (intro conjI allI impI)
    show "length (argv s') = length (argv s)" using ih len1 by simp
  next
    fix j assume "j < length (argv s)" "j \<notin> set (i # is)"
    then show "argv s' ! j = argv s ! j" using ih len1 one by simp
  next
    fix j assume j: "j < length (argv s)"
    show "argv s' ! j = argv s ! j \<or> cut_at_colon (argv s ! j) (argv s' ! j)"
    proof (cases "j = i")
      case True
      with ih fresh j len1 have "argv s' ! i = argv s1 ! i" by simp
      with at_i j True show ?thesis by simp
    next
      case False
      with one j have "argv s1 ! j = argv s ! j" by simp
      with ih j len1 show ?thesis by auto
    qed
  qed
qed

lemma remote_seen_Suc:
  "1 \<le> j \<Longrightarrow> remote_seen args (Suc j) \<longleftrightarrow>
     remote_seen args j \<or> (\<not> starts_with_dash (args ! j) \<and> CHR '':'' \<in> set (args ! j))"
  by (auto simp: remote_seen_def less_Suc_eq)

lemma local_seen_Suc:
  "1 \<le> j \<Longrightarrow> local_seen args (Suc j) \<longleftrightarrow>
     local_seen args j \<or> (\<not> starts_with_dash (args ! j) \<and> CHR '':'' \<notin> set (args ! j))"
  by (auto simp: local_seen_def less_Suc_eq)

lemma scp_step_effect:
  assumes "scp_step st cap j s = Inr s'"
  shows "if starts_with_dash (argv s ! j)
            \<or> (distantFileName s \<noteq> None \<and> localFileName s \<noteq> None)
         then argv s' = argv s \<and> distantFileName s' = distantFileName s
              \<and> localFileName s' = localFileName s
         else if CHR '':'' \<in> set (argv s ! j)
         then argv s' = (argv s)[j := takeWhile (\<lambda>c. c \<noteq> CHR '':'') (argv s ! j)]
              \<and> distantFileName s' \<noteq> None \<and> localFileName s' = localFileName s
         else argv s' = argv s \<and> distantFileName s' = distantFileName s
              \<and> localFileName s' \<noteq> None"
proof (cases "strstr1 (argv s ! j) (CHR '':'')")
  case None
  then have "CHR '':'' \<notin> set (argv s ! j)" by (simp add: strstr1_None_iff)
  with assms None show ?thesis
    by (auto simp: scp_step_def Let_def store_arg_def and_then_def starts_with_dash_def
             split: if_splits option.splits sum.splits bool.splits)
next
  case (Some p)
  from strstr1_Some_first [OF Some]
  have "CHR '':'' \<in> set (argv s ! j)"
    and "take p (argv s ! j) = takeWhile (\<lambda>c. c \<noteq> CHR '':'') (argv s ! j)"
    by (simp_all add: take_first)
  with assms Some show ?thesis
    by (auto simp: scp_step_def Let_def store_arg_def and_then_def starts_with_dash_def
             split: if_splits)
qed

lemma scp_step_scanned:
  assumes inv: "scanned_upto args j s" and j: "1 \<le> j" "j < length args"
    and step: "scp_step st cap j s = Inr s'"
  shows "scanned_upto args (Suc j) s'"
proof -
  from inv j have tok: "argv s ! j = args ! j"
    by (simp add: scanned_upto_def)
  from inv have len: "length (argv s) = length args"
    and old: "\<And>k. k < length args \<Longrightarrow>
               argv s ! k = (if 1 \<le> k \<and> k < j then token_after_scan args k else args ! k)"
    and dist: "distantFileName s \<noteq> None \<longleftrightarrow> remote_seen args j"
    and loc: "localFileName s \<noteq> None \<longleftrightarrow> local_seen args j"
    by (simp_all add: scanned_upto_def)
  note eff = scp_step_effect [OF step, unfolded tok]
  consider (flag) "starts_with_dash (args ! j) \<or> (remote_seen args j \<and> local_seen args j)"
    | (remote) "\<not> starts_with_dash (args ! j)" "\<not> (remote_seen args j \<and> local_seen args j)"
        "CHR '':'' \<in> set (args ! j)"
    | (local) "\<not> starts_with_dash (args ! j)" "\<not> (remote_seen args j \<and> local_seen args j)"
        "CHR '':'' \<notin> set (args ! j)"
    by blast
  then show ?thesis
  proof cases
    case flag
    with eff dist loc have same: "argv s' = argv s" "distantFileName s' = distantFileName s"
      "localFileName s' = localFileName s" by auto
    from flag have keep: "token_after_scan args j = args ! j"
      by (auto simp: token_after_scan_def taken_as_remote_def)
    have "\<forall>k<length args.
           argv s' ! k = (if 1 \<le> k \<and> k < Suc j then token_after_scan args k else args ! k)"
      using old keep by (auto simp: same less_Suc_eq)
    moreover have "distantFileName s' \<noteq> None \<longleftrightarrow> remote_seen args (Suc j)"
      using flag dist by (auto simp: same remote_seen_Suc [OF j(1)])
    moreover have "localFileName s' \<noteq> None \<longleftrightarrow> local_seen args (Suc j)"
      using flag loc by (auto simp: same local_seen_Suc [OF j(1)])
    ultimately show ?thesis
      by (simp add: scanned_upto_def same len)
  next
    case remote
    with eff dist loc
    have upd: "argv s' = (argv s)[j := takeWhile (\<lambda>c. c \<noteq> CHR '':'') (args ! j)]"
      and d': "distantFileName s' \<noteq> None" and l': "localFileName s' = localFileName s"
      by auto
    from remote have cut: "token_after_scan args j = takeWhile (\<lambda>c. c \<noteq> CHR '':'') (args ! j)"
      by (auto simp: token_after_scan_def taken_as_remote_def)
    have "\<forall>k<length args.
           argv s' ! k = (if 1 \<le> k \<and> k < Suc j then token_after_scan args k else args ! k)"
      using old cut j len by (auto simp: upd less_Suc_eq nth_list_update)
    moreover have "distantFileName s' \<noteq> None \<longleftrightarrow> remote_seen args (Suc j)"
      using remote d' by (auto simp: remote_seen_Suc [OF j(1)])
    moreover have "localFileName s' \<noteq> None \<longleftrightarrow> local_seen args (Suc j)"
      using remote loc by (auto simp: l' local_seen_Suc [OF j(1)])
    ultimately show ?thesis
      by (simp add: scanned_upto_def upd len)
  next
    case local
    with eff dist loc have same: "argv s' = argv s"
      and d': "distantFileName s' = distantFileName s" and l': "localFileName s' \<noteq> None"
      by auto
    from local have keep: "token_after_scan args j = args ! j"
      by (auto simp: token_after_scan_def taken_as_remote_def)
    have "\<forall>k<length args.
           argv s' ! k = (if 1 \<le> k \<and> k < Suc j then token_after_scan args k else args ! k)"
      using old keep by (auto simp: same less_Suc_eq)
    moreover have "distantFileName s' \<noteq> None \<longleftrightarrow> remote_seen args (Suc j)"
      using local dist by (auto simp: d' remote_seen_Suc [OF j(1)])
    moreover have "localFileName s' \<noteq> None \<longleftrightarrow> local_seen args (Suc j)"
      using local l' by (auto simp: local_seen_Suc [OF j(1)])
    ultimately show ?thesis
      by (simp add: scanned_upto_def same len)
  qed
qed

lemma scp_loop_scanned:
  assumes "scanned_upto args i s" and "1 \<le> i" and "i \<le> n" and "n \<le> length args"
    and "scp_loop st cap [i..<n] s = Inr s'"
  shows "scanned_upto args n s'"
  using assms
proof (induction "n - i" arbitrary: i s)
  case 0
  then show ?case by simp
next
  case (Suc d)
  then have lt: "i < n" by simp
  then have upt: "[i..<n] = i # [Suc i..<n]" by (simp add: upt_conv_Cons)
  from Suc.prems(5) obtain s1 where
    step: "scp_step st cap i s = Inr s1" and rest: "scp_loop st cap [Suc i..<n] s1 = Inr s'"
    by (auto simp: upt split: sum.splits)
  from lt Suc.prems have "i < length args" by simp
  from scp_step_scanned [OF Suc.prems(1,2) this step]
  have "scanned_upto args (Suc i) s1" .
  moreover from Suc.hyps(2) have "d = n - Suc i" by simp
  ultimately show ?case
    using Suc.hyps(1) [of "Suc i" s1] lt Suc.prems(4) rest by simp
qed

text \<open>
  Claim C3, as the code has it. A scan that completes leaves the vector's length and the
  program name unchanged, and leaves at every other index \<open>token_after_scan\<close>: the token
  as it was, unless the token was taken as the remote file (it does not start with \<open>-\<close>,
  contains \<open>:\<close>, and is scanned before both a remote and a local name are known), and
  then the token cut at its first \<open>:\<close>.
\<close>

theorem only_tokens_taken_as_remote_are_cut:
  assumes "scp_scan st args = Inr s"
  shows "argv s = hd args # map (token_after_scan args) [1..<length args]"
proof -
  let ?s0 = "\<lparr>argv = args, argv2 = [''curl''], localFileName = None, distantFileName = None\<rparr>"
  from assms have ne: "args \<noteq> []"
    and loop: "scp_loop st (length args + 2) [1..<length args] ?s0 = Inr s"
    by (auto simp: scp_scan_def Let_def split: if_splits sum.splits)
  have "scanned_upto args 1 ?s0"
    by (simp add: scanned_upto_def remote_seen_def local_seen_def)
  moreover from ne have pos: "1 \<le> length args" by (cases args) simp_all
  ultimately have fin: "scanned_upto args (length args) s"
    using scp_loop_scanned [of args 1 ?s0 "length args" st "length args + 2" s] loop by simp
  show ?thesis
  proof (rule nth_equalityI)
    show "length (argv s) = length (hd args # map (token_after_scan args) [1..<length args])"
      using fin pos by (simp add: scanned_upto_def)
  next
    fix k assume "k < length (argv s)"
    with fin have k: "k < length args" by (simp add: scanned_upto_def)
    with fin have "argv s ! k = (if 1 \<le> k then token_after_scan args k else args ! k)"
      by (simp add: scanned_upto_def)
    then show "argv s ! k = (hd args # map (token_after_scan args) [1..<length args]) ! k"
      using k ne by (cases k) (simp_all add: hd_conv_nth)
  qed
qed

lemma remote_then_local_scan:
  "scp_scan no_files [''scp'', ''user@host:file'', ''out''] =
     Inr \<lparr>argv = [''scp'', ''user@host'', ''out''],
          argv2 = [''curl'', ''scp://user@host/file'', ''-o'', ''out''],
          localFileName = Some ''out'', distantFileName = Some ''file''\<rparr>"
  by code_simp

lemma remote_local_extra_scan:
  "scp_scan no_files [''scp'', ''host:f'', ''out'', ''other:thing''] =
     Inr \<lparr>argv = [''scp'', ''host'', ''out'', ''other:thing''],
          argv2 = [''curl'', ''scp://host/f'', ''-o'', ''out'', ''other:thing''],
          localFileName = Some ''out'', distantFileName = Some ''f''\<rparr>"
  by code_simp

lemma remote_local_extra_tokens:
  "map (token_after_scan [''scp'', ''host:f'', ''out'', ''other:thing'']) [1..<4]
     = [''host'', ''out'', ''other:thing'']"
  by code_simp

theorem only_tokens_taken_as_remote_are_cut_witness:
  "scp_scan no_files [''scp'', ''host:f'', ''out'', ''other:thing''] =
     Inr \<lparr>argv = [''scp'', ''host'', ''out'', ''other:thing''],
          argv2 = [''curl'', ''scp://host/f'', ''-o'', ''out'', ''other:thing''],
          localFileName = Some ''out'', distantFileName = Some ''f''\<rparr>
   \<and> hd [''scp'', ''host:f'', ''out'', ''other:thing'']
       # map (token_after_scan [''scp'', ''host:f'', ''out'', ''other:thing''])
           [1..<length [''scp'', ''host:f'', ''out'', ''other:thing'']]
     = [''scp'', ''host'', ''out'', ''other:thing'']"
  using only_tokens_taken_as_remote_are_cut [OF remote_local_extra_scan]
    remote_local_extra_scan
  by simp

text \<open>Claim C3, as stated, fails: after \<^verbatim>\<open>scp user@host:file out\<close> the caller's second
  token reads \<open>user@host\<close>.\<close>

theorem remote_token_is_overwritten:
  "map_sum id argv (scp_scan no_files [''scp'', ''user@host:file'', ''out''])
     = Inr [''scp'', ''user@host'', ''out'']
   \<and> map_sum id argv (scp_scan no_files [''scp'', ''user@host:file'', ''out''])
     \<noteq> Inr [''scp'', ''user@host:file'', ''out'']"
  by (simp add: remote_then_local_scan)

section \<open>The translator: usage failure\<close>

lemma scp_scan_keeps_program_name:
  assumes "scp_scan st args = Inr s"
  shows "argv s ! 0 = args ! 0"
proof -
  from assms obtain s0 where ne: "args \<noteq> []"
    and loop: "scp_loop st (length args + 2) [1..<length args] s0 = Inr s"
    and s0: "argv s0 = args"
    by (auto simp: scp_scan_def Let_def split: if_splits sum.splits)
  have "distinct [1..<length args]" by simp
  from scp_loop_argv [OF this loop] ne show ?thesis
    by (simp add: s0)
qed

text \<open>
  Claim C4, as the code has it. When the scan completes and has not found both a local
  and a remote file name, \<^verbatim>\<open>scp_convert\<close> returns \<open>-1\<close> and its only effects are the
  two usage lines on the error stream (the download form, then the upload form) and the
  release of the list the scan built: nothing of \<^verbatim>\<open>curl_main\<close> runs.
\<close>

theorem usage_failure_without_delegation:
  assumes "scp_scan (stat env) args = Inr s"
    and "localFileName s = None \<or> distantFileName s = None"
  shows "scp_convert env args =
           Inr \<lparr>exit_code = - 1, events = usage (args ! 0) @ [Free_argv2 (argv2 s)]\<rparr>"
  using assms by (auto simp: scp_convert.simps scp_scan_keeps_program_name)

lemma flag_only_scan:
  "scp_scan (stat all_succeed) [''scp'', ''-v''] =
     Inr \<lparr>argv = [''scp'', ''-v''], argv2 = [''curl'', ''-v''],
          localFileName = None, distantFileName = None\<rparr>"
  by code_simp

theorem usage_failure_without_delegation_witness:
  "scp_convert all_succeed [''scp'', ''-v''] =
     Inr \<lparr>exit_code = - 1,
          events =
            [Fprintf_stderr (''Usage:'' @ [CHR 0x09]
               @ ''scp [-q] [user@]host:distantFile localFile'' @ [CHR 0x0A]),
             Fprintf_stderr ([CHR 0x09]
               @ ''scp [-q] localFile [user@]host:distantFile '' @ [CHR 0x0A]),
             Free_argv2 [''curl'', ''-v'']]\<rparr>"
  using usage_failure_without_delegation [OF flag_only_scan]
  by (simp add: usage_def)

text \<open>Claim C4, as stated, fails: for the empty token list the scan has built the list
  \<open>[curl]\<close> by the time the usage failure is found, and \<^verbatim>\<open>scp_convert\<close> then frees
  it.\<close>

theorem usage_failure_after_list_built:
  "scp_scan (stat all_succeed) [''scp''] =
     Inr \<lparr>argv = [''scp''], argv2 = [''curl''],
          localFileName = None, distantFileName = None\<rparr>
   \<and> scp_convert all_succeed [''scp''] =
       Inr \<lparr>exit_code = - 1, events = usage ''scp'' @ [Free_argv2 [''curl'']]\<rparr>"
proof -
  have scan: "scp_scan (stat all_succeed) [''scp''] =
     Inr \<lparr>argv = [''scp''], argv2 = [''curl''],
          localFileName = None, distantFileName = None\<rparr>"
    by code_simp
  then show ?thesis
    by (simp add: scp_convert.simps)
qed

section \<open>The lifecycle: failures of \<^verbatim>\<open>main_init\<close>\<close>

text \<open>
  Claim C1, as the code has it. When \<^verbatim>\<open>main_init\<close> fails, what it releases is what
  it acquired other than the library's global state, in reverse order: the node when
  the allocation succeeded, nothing otherwise. No release is of something not held.
  The library's global state, once initialised, stays held.
\<close>

theorem init_failure_releases_node_only:
  assumes "main_init env config = (result, config', tr)" and "result \<noteq> CURLE_OK"
  shows "released tr = rev (removeAll Engine (acquired tr))
         \<and> released tr = (if malloc_OperationConfig env = None then [] else [Node])
         \<and> ledger tr [] = Some (if Engine \<in> set (acquired tr) then [Engine] else [])"
  using assms
  by (auto simp: main_init_def Let_def released_def acquired_def
        CURLE_OK_def CURLE_FAILED_INIT_def
      split: option.splits if_splits)

lemma info_fails_init:
  "main_init info_fails zeroed =
     (2,
      zeroed\<lparr>showerror := - 1, errors := Some Thread_stderr, first := Some 1,
             last_config := Some 1\<rparr>,
      [Malloc_OperationConfig (Some 1), Curl_global_init 0, Get_libcurl_info 2,
       Helpf (''error retrieving curl library information'' @ [CHR 0x0A]), Free_first 1])"
  by (simp add: main_init_def info_fails_def all_succeed_def)

theorem init_failure_releases_node_only_witness:
  "released [Malloc_OperationConfig (Some 1), Curl_global_init 0, Get_libcurl_info 2,
       Helpf (''error retrieving curl library information'' @ [CHR 0x0A]), Free_first 1]
     = [Node]
   \<and> ledger [Malloc_OperationConfig (Some 1), Curl_global_init 0, Get_libcurl_info 2,
       Helpf (''error retrieving curl library information'' @ [CHR 0x0A]), Free_first 1] []
     = Some [Engine]"
  using init_failure_releases_node_only [OF info_fails_init]
  by (simp add: CURLE_OK_def info_fails_def all_succeed_def acquired_def)

text \<open>Claim C1, as stated, fails: when the query of step (d) fails, the node and the
  library's global state have been acquired and only the node is released.\<close>

theorem engine_kept_when_info_fails:
  "fst (main_init info_fails zeroed) = 2
   \<and> acquired (snd (snd (main_init info_fails zeroed))) = [Node, Engine]
   \<and> released (snd (snd (main_init info_fails zeroed))) = [Node]
   \<and> released (snd (snd (main_init info_fails zeroed)))
       \<noteq> rev (acquired (snd (snd (main_init info_fails zeroed))))
   \<and> ledger (snd (snd (main_init info_fails zeroed))) [] = Some [Engine]"
  by (simp add: info_fails_init acquired_def released_def)

section \<open>The lifecycle: \<^verbatim>\<open>main_init\<close> then \<^verbatim>\<open>main_free\<close>\<close>

text \<open>
  Claim C5. After \<^verbatim>\<open>main_init\<close> has succeeded on the zeroed configuration,
  \<^verbatim>\<open>main_free\<close> leaves every resource field as it is in the zeroed configuration:
  the pointers null, the two ownership flags unset. (\<open>showerror\<close>, not a resource
  field, stays \<open>-1\<close>.)
\<close>

theorem init_then_free_clears_resources:
  assumes "main_init env zeroed = (CURLE_OK, config, tr)"
  shows "resource_fields (fst (main_free config)) = resource_fields zeroed"
  using assms
  by (auto simp: main_init_def main_free_def free_config_fields_def Let_def
        resource_fields_def zeroed_def CURLE_OK_def CURLE_FAILED_INIT_def
      split: option.splits if_splits)

lemma all_succeed_init:
  "main_init all_succeed zeroed =
     (CURLE_OK,
      zeroed\<lparr>showerror := - 1, errors := Some Thread_stderr, first := Some 1,
             last_config := Some 1, easy := Some 2\<rparr>,
      [Malloc_OperationConfig (Some 1), Curl_global_init 0, Get_libcurl_info 0,
       Curl_easy_init (Some 2), Config_init 1 2])"
  by (simp add: main_init_def all_succeed_def CURLE_OK_def)

theorem init_then_free_clears_resources_witness:
  "resource_fields
     (fst (main_free (zeroed\<lparr>showerror := - 1, errors := Some Thread_stderr,
                             first := Some 1, last_config := Some 1, easy := Some 2\<rparr>)))
     = (None, None, False, None, None, False, None, None, None)"
  using init_then_free_clears_resources [OF all_succeed_init]
  by (simp add: resource_fields_def zeroed_def)

section \<open>The entry point \<^verbatim>\<open>curl_main\<close>\<close>

lemma curl_main_canonical:
  assumes "args \<noteq> []" and "hd args \<noteq> ''scp''" and "hd args \<noteq> ''sftp''"
  shows "curl_main env args =
           (let (result, global, starting) = main_init env zeroed in
            if result = CURLE_OK then
              (let (result', global') = operate env global args;
                   (global'', ending) = main_free global'
               in Inr \<lparr>exit_code = result',
                       events = starting @ [Operate args result', Main_free] @ ending\<rparr>)
            else Inr \<lparr>exit_code = result, events = starting\<rparr>)"
  using assms by (cases args) (auto simp: curl_main.simps)

lemma main_init_events:
  "e \<in> set (snd (snd (main_init env config))) \<Longrightarrow> e \<noteq> Main_free \<and> e \<noteq> Operate a c"
  by (auto simp: main_init_def Let_def split: option.splits if_splits)

lemma main_free_events:
  "e \<in> set (snd (main_free config)) \<Longrightarrow> e \<noteq> Main_free"
  by (auto simp: main_free_def free_config_fields_def Let_def split: option.splits if_splits)

text \<open>
  Claim C6. When \<^verbatim>\<open>argv[0]\<close> is neither \<open>scp\<close> nor \<open>sftp\<close>, \<^verbatim>\<open>curl_main\<close> returns,
  and it calls \<^verbatim>\<open>operate\<close> exactly when \<^verbatim>\<open>main_init\<close> returns \<^verbatim>\<open>CURLE_OK\<close>;
  otherwise it returns the code of \<^verbatim>\<open>main_init\<close>, having made no call but those of
  \<^verbatim>\<open>main_init\<close>.
\<close>

theorem operate_iff_init_succeeds:
  assumes "args \<noteq> []" and "hd args \<noteq> ''scp''" and "hd args \<noteq> ''sftp''"
  shows "\<exists>r. curl_main env args = Inr r
           \<and> ((\<exists>a c. Operate a c \<in> set (events r)) \<longleftrightarrow> fst (main_init env zeroed) = CURLE_OK)
           \<and> (fst (main_init env zeroed) \<noteq> CURLE_OK \<longrightarrow>
                exit_code r = fst (main_init env zeroed)
                \<and> events r = snd (snd (main_init env zeroed)))"
proof (cases "fst (main_init env zeroed) = CURLE_OK")
  case True
  then show ?thesis
    by (auto simp: curl_main_canonical [OF assms] Let_def split: prod.splits)
next
  case False
  have "\<And>a c. Operate a c \<notin> set (snd (snd (main_init env zeroed)))"
    using main_init_events by blast
  with False show ?thesis
    by (auto simp: curl_main_canonical [OF assms] Let_def split: prod.splits)
qed

theorem operate_iff_init_succeeds_witness:
  "curl_main info_fails [''curl'', ''-V''] =
     Inr \<lparr>exit_code = 2,
          events =
            [Malloc_OperationConfig (Some 1), Curl_global_init 0, Get_libcurl_info 2,
             Helpf (''error retrieving curl library information'' @ [CHR 0x0A]),
             Free_first 1]\<rparr>"
  using operate_iff_init_succeeds [of "[''curl'', ''-V'']" info_fails]
  by (auto simp: info_fails_init CURLE_OK_def)

text \<open>
  Claim C7. When \<^verbatim>\<open>argv[0]\<close> is neither \<open>scp\<close> nor \<open>sftp\<close> and \<^verbatim>\<open>main_init\<close>
  succeeds, \<^verbatim>\<open>curl_main\<close> calls \<^verbatim>\<open>operate\<close>, then \<^verbatim>\<open>main_free\<close> once, on the
  configuration as \<^verbatim>\<open>operate\<close> left it and whatever code \<^verbatim>\<open>operate\<close> returned, and
  returns that code.
\<close>

theorem teardown_once_and_operate_code:
  assumes "args \<noteq> []" and "hd args \<noteq> ''scp''" and "hd args \<noteq> ''sftp''"
    and "main_init env zeroed = (CURLE_OK, global, starting)"
  shows "\<exists>r. curl_main env args = Inr r
           \<and> events r = starting @ [Operate args (fst (operate env global args)), Main_free]
                          @ snd (main_free (snd (operate env global args)))
           \<and> length (filter (\<lambda>e. e = Main_free) (events r)) = 1
           \<and> exit_code r = fst (operate env global args)"
proof -
  have a: "filter (\<lambda>e. e = Main_free) starting = []"
    using main_init_events [of _ env zeroed] assms(4) by (auto simp: filter_empty_conv)
  have b: "filter (\<lambda>e. e = Main_free) (snd (main_free (snd (operate env global args)))) = []"
    using main_free_events by (auto simp: filter_empty_conv)
  show ?thesis
    using a b assms(4)
    by (simp add: curl_main_canonical [OF assms(1-3)] Let_def case_prod_beta)
qed

theorem teardown_once_and_operate_code_witness:
  "curl_main all_succeed [''curl'', ''-V''] =
     Inr \<lparr>exit_code = 7,
          events =
            [Malloc_OperationConfig (Some 1), Curl_global_init 0, Get_libcurl_info 0,
             Curl_easy_init (Some 2), Config_init 1 2,
             Operate [''curl'', ''-V''] 7, Main_free,
             Curl_easy_cleanup (Some 2), Curl_global_cleanup, Convert_cleanup,
             Metalink_cleanup, Safefree None, Safefree None, Config_free (Some 1)]\<rparr>"
  using teardown_once_and_operate_code [of "[''curl'', ''-V'']" all_succeed,
      OF _ _ _ all_succeed_init]
  by (auto simp: all_succeed_def operate_fails_def main_free_def free_config_fields_def
        zeroed_def)

end
